theory Spec2Isabelle
  imports Main "HOL-Library.Sublist"
begin

section \<open>Python values, exceptions and string operations\<close>

text \<open>
  The converter \<^verbatim>\<open>csv_to_sql_insert\<close> of \<^verbatim>\<open>src/db/sql/csv_to_insert.py\<close> reads a
  semicolon-separated file through \<^verbatim>\<open>csv.DictReader\<close> and writes one SQL INSERT
  statement. A value found in a row dictionary is either a string or, for a column the record
  was too short to fill, Python's \<^verbatim>\<open>None\<close> (the \<^verbatim>\<open>restval\<close> of the DictReader).
\<close>

datatype pyval = PyNone | PyStr string

datatype exn =
    FileNotFoundError string
  | ValueError string
  | KeyError string
  | AttributeError string
  | CsvError string

text \<open>The single-quote character and the two line-break characters.\<close>

definition sq :: char where
  "sq = CHR 0x27"

definition LF :: char where
  "LF = CHR 0x0A"

definition CR :: char where
  "CR = CHR 0x0D"

text \<open>\<^verbatim>\<open>str(e)\<close> for the exceptions that reach the generic handler.\<close>

fun str_exn :: "exn \<Rightarrow> string" where
  "str_exn (FileNotFoundError p) = ''[Errno 2] No such file or directory: '' @ [sq] @ p @ [sq]"
| "str_exn (ValueError m) = m"
| "str_exn (KeyError k) = [sq] @ k @ [sq]"
| "str_exn (AttributeError m) = m"
| "str_exn (CsvError m) = m"

text \<open>\<^verbatim>\<open>str(value)\<close> on a dictionary value.\<close>

fun str :: "pyval \<Rightarrow> string" where
  "str PyNone = ''None''"
| "str (PyStr s) = s"

text \<open>
  \<^verbatim>\<open>s.replace(old, new)\<close> on a string: occurrences of \<open>old\<close> are replaced from
  left to right without overlap; an empty \<open>old\<close> matches before every character and at the
  end.
\<close>

function str_replace :: "string \<Rightarrow> string \<Rightarrow> string \<Rightarrow> string" where
  "str_replace old new s =
     (if old = [] then concat (map (\<lambda>c. new @ [c]) s) @ new
      else if s = [] then []
      else if prefix old s then new @ str_replace old new (drop (length old) s)
      else hd s # str_replace old new (tl s))"
  by pat_completeness auto
termination
  by (relation "measure (\<lambda>(old, new, s). length s)") auto

declare str_replace.simps [simp del]

text \<open>
  \<^verbatim>\<open>value.replace(old, new)\<close> on a dictionary value: \<^verbatim>\<open>None\<close> has no such
  method.
\<close>

fun replace :: "pyval \<Rightarrow> string \<Rightarrow> string \<Rightarrow> exn + string" where
  "replace PyNone old new = Inl (AttributeError
       ([sq] @ ''NoneType'' @ [sq] @ '' object has no attribute '' @ [sq] @ ''replace'' @ [sq]))"
| "replace (PyStr s) old new = Inr (str_replace old new s)"

text \<open>\<^verbatim>\<open>sep.join(xs)\<close>.\<close>

fun join :: "string \<Rightarrow> string list \<Rightarrow> string" where
  "join sep [] = []"
| "join sep [x] = x"
| "join sep (x # y # ys) = x @ sep @ join sep (y # ys)"

section \<open>The file system and the lines of a text file\<close>

text \<open>
  The file system maps a path to the text of the regular file there. Text is taken as already
  decoded; a character is a byte, and since the single quote, the semicolon, the double quote
  and the line breaks are ASCII, the operations below act on UTF-8 text as they do on Python's
  code points. Directories, permissions and undecodable bytes are outside the model: a path
  either holds a readable file or holds nothing, and opening a path for writing succeeds.
\<close>

type_synonym fs = "string \<rightharpoonup> string"

text \<open>
  Iterating over a file opened with \<^verbatim>\<open>newline=''\<close> yields its lines, each ending
  with its own terminator (LF, CR or CR LF), the last one possibly unterminated.
\<close>

fun file_lines_from :: "string \<Rightarrow> string \<Rightarrow> string list" where
  "file_lines_from cur [] = (if cur = [] then [] else [cur])"
| "file_lines_from cur (c # cs) =
     (if c = LF then (cur @ [c]) # file_lines_from [] cs
      else if c = CR then
        (case cs of
           [] \<Rightarrow> [cur @ [c]]
         | d # ds \<Rightarrow>
             if d = LF then (cur @ [c, d]) # file_lines_from [] ds
             else (cur @ [c]) # file_lines_from [] cs)
      else file_lines_from (cur @ [c]) cs)"

definition file_lines :: "string \<Rightarrow> string list" where
  "file_lines content = file_lines_from [] content"

section \<open>The record reader of the csv module\<close>

text \<open>
  \<^verbatim>\<open>csv.DictReader(csv_file, delimiter=';')\<close> wraps the library's record reader in
  its default dialect: the double quote as quote character, doubled quotes inside a quoted
  field, no escape character, no skipping of initial spaces, not strict. The reader is a
  character automaton; its escape states cannot be entered without an escape character and are
  left out. \<open>None\<close> as input character stands for the end of a line. A field may hold at
  most \<open>field_limit\<close> characters, the library's default limit; every character, the NUL
  character included, is an ordinary character unless the automaton names it.
\<close>

datatype ParserState =
    START_RECORD
  | START_FIELD
  | IN_FIELD
  | IN_QUOTED_FIELD
  | QUOTE_IN_QUOTED_FIELD
  | EAT_CRNL

record ReaderObj =
  state :: ParserState
  fieldlist :: "string list"
  fieldbuf :: string

definition delimiter :: char where
  "delimiter = CHR '';''"

definition quotechar :: char where
  "quotechar = CHR 0x22"

definition field_limit :: nat where
  "field_limit = 131072"

definition parse_reset :: ReaderObj where
  "parse_reset = \<lparr>state = START_RECORD, fieldlist = [], fieldbuf = []\<rparr>"

definition parse_save_field :: "ReaderObj \<Rightarrow> ReaderObj" where
  "parse_save_field self = self\<lparr>fieldlist := fieldlist self @ [fieldbuf self], fieldbuf := []\<rparr>"

definition parse_add_char :: "ReaderObj \<Rightarrow> char \<Rightarrow> exn + ReaderObj" where
  "parse_add_char self c =
     (if field_limit \<le> length (fieldbuf self)
      then Inl (CsvError ''field larger than field limit (131072)'')
      else Inr (self\<lparr>fieldbuf := fieldbuf self @ [c]\<rparr>))"

definition set_state :: "ParserState \<Rightarrow> exn + ReaderObj \<Rightarrow> exn + ReaderObj" where
  "set_state st r = (case r of Inl e \<Rightarrow> Inl e | Inr self \<Rightarrow> Inr (self\<lparr>state := st\<rparr>))"

definition start_field :: "ReaderObj \<Rightarrow> char option \<Rightarrow> exn + ReaderObj" where
  "start_field self c =
     (case c of
        None \<Rightarrow> Inr ((parse_save_field self)\<lparr>state := START_RECORD\<rparr>)
      | Some x \<Rightarrow>
          if x = LF \<or> x = CR then Inr ((parse_save_field self)\<lparr>state := EAT_CRNL\<rparr>)
          else if x = quotechar then Inr (self\<lparr>state := IN_QUOTED_FIELD\<rparr>)
          else if x = delimiter then Inr (parse_save_field self)
          else set_state IN_FIELD (parse_add_char self x))"

definition parse_process_char :: "ReaderObj \<Rightarrow> char option \<Rightarrow> exn + ReaderObj" where
  "parse_process_char self c =
     (case state self of
        START_RECORD \<Rightarrow>
          (case c of
             None \<Rightarrow> Inr self
           | Some x \<Rightarrow>
               if x = LF \<or> x = CR then Inr (self\<lparr>state := EAT_CRNL\<rparr>)
               else start_field (self\<lparr>state := START_FIELD\<rparr>) c)
      | START_FIELD \<Rightarrow> start_field self c
      | IN_FIELD \<Rightarrow>
          (case c of
             None \<Rightarrow> Inr ((parse_save_field self)\<lparr>state := START_RECORD\<rparr>)
           | Some x \<Rightarrow>
               if x = LF \<or> x = CR then Inr ((parse_save_field self)\<lparr>state := EAT_CRNL\<rparr>)
               else if x = delimiter then Inr ((parse_save_field self)\<lparr>state := START_FIELD\<rparr>)
               else parse_add_char self x)
      | IN_QUOTED_FIELD \<Rightarrow>
          (case c of
             None \<Rightarrow> Inr self
           | Some x \<Rightarrow>
               if x = quotechar then Inr (self\<lparr>state := QUOTE_IN_QUOTED_FIELD\<rparr>)
               else parse_add_char self x)
      | QUOTE_IN_QUOTED_FIELD \<Rightarrow>
          (case c of
             None \<Rightarrow> Inr ((parse_save_field self)\<lparr>state := START_RECORD\<rparr>)
           | Some x \<Rightarrow>
               if x = quotechar then set_state IN_QUOTED_FIELD (parse_add_char self x)
               else if x = delimiter then Inr ((parse_save_field self)\<lparr>state := START_FIELD\<rparr>)
               else if x = LF \<or> x = CR then Inr ((parse_save_field self)\<lparr>state := EAT_CRNL\<rparr>)
               else set_state IN_FIELD (parse_add_char self x))
      | EAT_CRNL \<Rightarrow>
          (case c of
             None \<Rightarrow> Inr (self\<lparr>state := START_RECORD\<rparr>)
           | Some x \<Rightarrow>
               if x = LF \<or> x = CR then Inr self
               else Inl (CsvError (''new-line character seen in unquoted field - ''
                      @ ''do you need to open the file with newline='' @ [sq, sq] @ ''?''))))"

text \<open>One line of input: its characters, then the end-of-line signal.\<close>

fun process_line :: "ReaderObj \<Rightarrow> string \<Rightarrow> exn + ReaderObj" where
  "process_line self [] = parse_process_char self None"
| "process_line self (c # cs) =
     (case parse_process_char self (Some c) of
        Inl e \<Rightarrow> Inl e
      | Inr self' \<Rightarrow> process_line self' cs)"

text \<open>
  The records the reader yields when it is iterated to its end, and the error that ends the
  iteration early if there is one. A record is complete when a line ends in state
  \<open>START_RECORD\<close>; a quoted field may run over several lines, and at the end of the input
  an open field is saved as the last field of a last record.
\<close>

fun reader_from :: "ReaderObj \<Rightarrow> string list \<Rightarrow> string list list \<times> exn option" where
  "reader_from self [] =
     (if fieldbuf self \<noteq> [] \<or> state self = IN_QUOTED_FIELD
      then ([fieldlist (parse_save_field self)], None)
      else ([], None))"
| "reader_from self (l # ls) =
     (case process_line self l of
        Inl e \<Rightarrow> ([], Some e)
      | Inr self' \<Rightarrow>
          if state self' = START_RECORD
          then (case reader_from parse_reset ls of (rs, e) \<Rightarrow> (fieldlist self' # rs, e))
          else reader_from self' ls)"

definition reader :: "string list \<Rightarrow> string list list \<times> exn option" where
  "reader ls = reader_from parse_reset ls"

section \<open>The dictionary reader\<close>

text \<open>
  \<^verbatim>\<open>DictReader.fieldnames\<close>: the first record of the reader, \<^verbatim>\<open>None\<close> when there
  is none; an error of the reader on the first record is raised.
\<close>

definition fieldnames :: "string list list \<times> exn option \<Rightarrow> exn + string list option" where
  "fieldnames rd =
     (case rd of
        ([], None) \<Rightarrow> Inr None
      | ([], Some e) \<Rightarrow> Inl e
      | (r # rs, e) \<Rightarrow> Inr (Some r))"

text \<open>
  The dictionary \<^verbatim>\<open>DictReader.__next__\<close> builds from a record:
  \<^verbatim>\<open>dict(zip(fieldnames, row))\<close>, and \<^verbatim>\<open>None\<close> stored under each field name a
  shorter record leaves unpaired. (The fields of a longer record beyond the header go under
  the key \<^verbatim>\<open>None\<close>, which no column name equals; that entry is left out.)
\<close>

fun dict_zip :: "string list \<Rightarrow> string list \<Rightarrow> (string \<rightharpoonup> pyval) \<Rightarrow> (string \<rightharpoonup> pyval)" where
  "dict_zip (k # ks) (v # vs) d = dict_zip ks vs (d(k \<mapsto> PyStr v))"
| "dict_zip ks vs d = d"

fun set_restval :: "string list \<Rightarrow> (string \<rightharpoonup> pyval) \<Rightarrow> (string \<rightharpoonup> pyval)" where
  "set_restval [] d = d"
| "set_restval (key # keys) d = set_restval keys (d(key \<mapsto> PyNone))"

definition DictReader_row :: "string list \<Rightarrow> string list \<Rightarrow> (string \<rightharpoonup> pyval)" where
  "DictReader_row fnames row =
     (let d = dict_zip fnames row Map.empty;
          lf = length fnames;
          lr = length row
      in if lr < lf then set_restval (drop lr fnames) d else d)"

text \<open>\<^verbatim>\<open>row[col]\<close>.\<close>

definition getitem :: "(string \<rightharpoonup> pyval) \<Rightarrow> string \<Rightarrow> exn + pyval" where
  "getitem row col = (case row col of None \<Rightarrow> Inl (KeyError col) | Some v \<Rightarrow> Inr v)"

section \<open>The converter\<close>

text \<open>
  The body of the inner loop for one column: the string appended to \<^verbatim>\<open>values\<close>, or
  the exception raised on the way.
\<close>

definition column_value :: "(string \<rightharpoonup> pyval) \<Rightarrow> string \<Rightarrow> exn + string" where
  "column_value row col =
     (case getitem row col of
        Inl e \<Rightarrow> Inl e
      | Inr v \<Rightarrow>
          if col \<in> set [''status'', ''rate'']
          then Inr (str v)
          else (case replace v [sq] [sq, sq] of
                  Inl e \<Rightarrow> Inl e
                | Inr escaped_value \<Rightarrow> Inr ([sq] @ escaped_value @ [sq])))"

text \<open>
  The inner loop \<^verbatim>\<open>for col in columns\<close> with its accumulator \<^verbatim>\<open>values\<close>.
\<close>

fun columns_loop :: "(string \<rightharpoonup> pyval) \<Rightarrow> string list \<Rightarrow> string list \<Rightarrow> exn + string list" where
  "columns_loop row [] values = Inr values"
| "columns_loop row (col # cols) values =
     (case column_value row col of
        Inl e \<Rightarrow> Inl e
      | Inr v \<Rightarrow> columns_loop row cols (values @ [v]))"

text \<open>
  The outer loop \<^verbatim>\<open>for row in csv_reader\<close> with its accumulator \<^verbatim>\<open>rows\<close>. The
  dictionary reader passes over empty records; an error of the record reader is raised when
  the iteration reaches it, after the records before it have been processed.
\<close>

fun rows_loop :: "string list \<Rightarrow> string list list \<Rightarrow> exn option \<Rightarrow> string list \<Rightarrow> exn + string list" where
  "rows_loop columns [] err rows = (case err of Some e \<Rightarrow> Inl e | None \<Rightarrow> Inr rows)"
| "rows_loop columns (r # rs) err rows =
     (if r = [] then rows_loop columns rs err rows
      else (case columns_loop (DictReader_row columns r) columns [] of
              Inl e \<Rightarrow> Inl e
            | Inr values \<Rightarrow>
                rows_loop columns rs err (rows @ [''('' @ join '', '' values @ '')''])))"

text \<open>
  The body of the \<^verbatim>\<open>with\<close> statement, given the text the input handle reads: the text
  written to \<^verbatim>\<open>sql_file\<close> by the time the block is left, and whether it was left
  normally or by an exception.
\<close>

definition with_body :: "string \<Rightarrow> string \<Rightarrow> string \<times> (exn + unit)" where
  "with_body content table_name =
     (let csv_reader = reader (file_lines content) in
      case fieldnames csv_reader of
        Inl e \<Rightarrow> ([], Inl e)
      | Inr None \<Rightarrow> ([], Inl (ValueError ''CSV file has no headers''))
      | Inr (Some []) \<Rightarrow> ([], Inl (ValueError ''CSV file has no headers''))
      | Inr (Some columns) \<Rightarrow>
          (let written = ''INSERT INTO '' @ table_name @ '' ('' @ join '', '' columns
                 @ '') VALUES'' @ [LF]
           in case rows_loop columns (tl (fst csv_reader)) (snd csv_reader) [] of
                Inl e \<Rightarrow> (written, Inl e)
              | Inr rows \<Rightarrow> (written @ join ('','' @ [LF]) rows @ '';'', Inr ())))"

text \<open>The two \<^verbatim>\<open>except\<close> clauses, in their order.\<close>

fun handler :: "exn \<Rightarrow> string \<Rightarrow> string" where
  "handler (FileNotFoundError p) csv_file_path = ''Error: File not found - '' @ csv_file_path"
| "handler e csv_file_path = ''An error occurred: '' @ str_exn e"

text \<open>
  \<^verbatim>\<open>csv_to_sql_insert\<close>: the file system after the call and the lines printed. The
  input is opened first; only then is the output opened for writing, which creates the file
  or empties it. When both paths name one file, the input handle reads the emptied file.
  Leaving the \<^verbatim>\<open>with\<close> block closes the output, so what was written is in the file on
  every path.
\<close>

definition csv_to_sql_insert :: "fs \<Rightarrow> string \<Rightarrow> string \<Rightarrow> string \<Rightarrow> fs \<times> string list" where
  "csv_to_sql_insert files csv_file_path output_file_path table_name =
     (case files csv_file_path of
        None \<Rightarrow> (files, [handler (FileNotFoundError csv_file_path) csv_file_path])
      | Some text \<Rightarrow>
          (let content = (if csv_file_path = output_file_path then [] else text)
           in case with_body content table_name of
                (written, Inl e) \<Rightarrow>
                  (files(output_file_path \<mapsto> written), [handler e csv_file_path])
              | (written, Inr u) \<Rightarrow>
                  (files(output_file_path \<mapsto> written),
                   [''Successfully converted CSV to SQL INSERT statements. Output saved to ''
                    @ output_file_path])))"

text \<open>
  The interactive entry point, given the three lines it reads: it checks that the input path
  exists before it calls the converter.
\<close>

definition main :: "fs \<Rightarrow> string \<Rightarrow> string \<Rightarrow> string \<Rightarrow> fs \<times> string list" where
  "main files input_csv output_sql table_name =
     (if files input_csv = None
      then (files, [''Error: Input file '' @ [sq] @ input_csv @ [sq] @ '' not found''])
      else csv_to_sql_insert files input_csv output_sql table_name)"

section \<open>Evaluation and basic facts\<close>

lemma str_replace_char:
  "str_replace [c] new s = concat (map (\<lambda>x. if x = c then new else [x]) s)"
proof (induction s)
  case Nil
  show ?case by (simp add: str_replace.simps)
next
  case (Cons x xs)
  show ?case
    by (subst str_replace.simps) (use Cons.IH in auto)
qed

lemmas parse_defs = parse_process_char_def start_field_def parse_add_char_def
  parse_save_field_def set_state_def field_limit_def delimiter_def quotechar_def
  LF_def CR_def sq_def parse_reset_def

lemmas convert_defs = with_body_def file_lines_def reader_def fieldnames_def
  DictReader_row_def getitem_def column_value_def str_replace_char

lemma example_body:
  "with_body (''id;worker_id;user_id;status;deadline;address;creation_date;rate'' @ [LF]
       @ ''1;7;3;1;2024-01-01;O'' @ [sq] @ ''Hara St;2023-12-01;9.5'') ''orders'' =
     (''INSERT INTO orders (id, worker_id, user_id, status, deadline, address, creation_date, rate) VALUES''
          @ [LF] @ ''('' @ [sq] @ ''1'' @ [sq] @ '', '' @ [sq] @ ''7'' @ [sq] @ '', ''
          @ [sq] @ ''3'' @ [sq] @ '', 1, '' @ [sq] @ ''2024-01-01'' @ [sq] @ '', ''
          @ [sq] @ ''O'' @ [sq, sq] @ ''Hara St'' @ [sq] @ '', ''
          @ [sq] @ ''2023-12-01'' @ [sq] @ '', 9.5);'', Inr ())"
  by (simp add: convert_defs parse_defs)

lemma example_body_newline:
  "with_body (''id;worker_id;user_id;status;deadline;address;creation_date;rate'' @ [LF]
       @ ''1;7;3;1;2024-01-01;O'' @ [sq] @ ''Hara St;2023-12-01;9.5'' @ [LF]) ''orders'' =
     (''INSERT INTO orders (id, worker_id, user_id, status, deadline, address, creation_date, rate) VALUES''
          @ [LF] @ ''('' @ [sq] @ ''1'' @ [sq] @ '', '' @ [sq] @ ''7'' @ [sq] @ '', ''
          @ [sq] @ ''3'' @ [sq] @ '', 1, '' @ [sq] @ ''2024-01-01'' @ [sq] @ '', ''
          @ [sq] @ ''O'' @ [sq, sq] @ ''Hara St'' @ [sq] @ '', ''
          @ [sq] @ ''2023-12-01'' @ [sq] @ '', 9.5);'', Inr ())"
  by (simp add: convert_defs parse_defs)

lemma csv_to_sql_insert_returns:
  assumes "files csv_file_path = Some text"
    and "csv_file_path \<noteq> output_file_path"
    and "with_body text table_name = (written, Inr ())"
  shows "csv_to_sql_insert files csv_file_path output_file_path table_name =
     (files(output_file_path \<mapsto> written),
      [''Successfully converted CSV to SQL INSERT statements. Output saved to ''
       @ output_file_path])"
  using assms by (simp add: csv_to_sql_insert_def)

lemma csv_to_sql_insert_raises:
  assumes "files csv_file_path = Some text"
    and "csv_file_path \<noteq> output_file_path"
    and "with_body text table_name = (written, Inl e)"
  shows "csv_to_sql_insert files csv_file_path output_file_path table_name =
     (files(output_file_path \<mapsto> written), [handler e csv_file_path])"
  using assms by (simp add: csv_to_sql_insert_def)

subsection \<open>column_value\<close>

lemma column_value_quoted:
  assumes "row col = Some (PyStr v)" and "col \<noteq> ''status''" and "col \<noteq> ''rate''"
  shows "column_value row col =
    Inr ([sq] @ concat (map (\<lambda>x. if x = sq then [sq, sq] else [x]) v) @ [sq])"
  using assms by (simp add: column_value_def getitem_def str_replace_char)

lemma column_value_numeric:
  assumes "row col = Some v" and "col = ''status'' \<or> col = ''rate''"
  shows "column_value row col = Inr (str v)"
  using assms by (auto simp add: column_value_def getitem_def)

lemma column_value_None:
  assumes "row col = Some PyNone" and "col \<noteq> ''status''" and "col \<noteq> ''rate''"
  shows "column_value row col = Inl (AttributeError
       ([sq] @ ''NoneType'' @ [sq] @ '' object has no attribute '' @ [sq] @ ''replace'' @ [sq]))"
  using assms by (simp add: column_value_def getitem_def)

lemma column_value_Inl:
  assumes "column_value row col = Inl e" and "row col \<noteq> None"
  shows "e = AttributeError
       ([sq] @ ''NoneType'' @ [sq] @ '' object has no attribute '' @ [sq] @ ''replace'' @ [sq])
     \<and> row col = Some PyNone \<and> col \<noteq> ''status'' \<and> col \<noteq> ''rate''"
proof -
  from assms(2) obtain v where v: "row col = Some v" by auto
  show ?thesis
  proof (cases v)
    case PyNone
    with v assms(1) show ?thesis
      by (auto simp add: column_value_def getitem_def split: if_splits)
  next
    case (PyStr s)
    with v assms(1) show ?thesis
      by (auto simp add: column_value_def getitem_def split: if_splits)
  qed
qed

subsection \<open>columns_loop\<close>

lemma columns_loop_Inr:
  "columns_loop row cols values = Inr vs \<longleftrightarrow>
     (\<exists>ws. vs = values @ ws \<and> list_all2 (\<lambda>col v. column_value row col = Inr v) cols ws)"
proof (induction cols arbitrary: "values")
  case Nil
  show ?case by auto
next
  case (Cons col cols)
  show ?case
  proof (cases "column_value row col")
    case (Inl e)
    then show ?thesis by (auto simp add: list_all2_Cons1)
  next
    case (Inr v)
    then show ?thesis by (auto simp add: Cons.IH list_all2_Cons1)
  qed
qed

lemma columns_loop_Inl:
  "columns_loop row cols values = Inl e \<Longrightarrow> \<exists>col\<in>set cols. column_value row col = Inl e"
proof (induction cols arbitrary: "values")
  case Nil
  then show ?case by simp
next
  case (Cons col cols)
  then show ?case by (cases "column_value row col") auto
qed

lemma columns_loop_fails:
  "col \<in> set cols \<Longrightarrow> column_value row col = Inl e \<Longrightarrow> \<exists>e'. columns_loop row cols values = Inl e'"
proof (induction cols arbitrary: "values")
  case Nil
  then show ?case by simp
next
  case (Cons c cols)
  then show ?case by (cases "column_value row c") auto
qed

subsection \<open>The dictionary\<close>

lemma dict_zip_other:
  "k \<notin> set (take (length vs) ks) \<Longrightarrow> dict_zip ks vs d k = d k"
  by (induction ks vs d rule: dict_zip.induct) auto

lemma set_restval_other:
  "k \<notin> set ks \<Longrightarrow> set_restval ks d k = d k"
  by (induction ks d rule: set_restval.induct) auto

lemma set_restval_in:
  "k \<in> set ks \<Longrightarrow> set_restval ks d k = Some PyNone"
proof (induction ks arbitrary: d)
  case Nil
  then show ?case by simp
next
  case (Cons key keys)
  show ?case
  proof (cases "k \<in> set keys")
    case True
    then show ?thesis by (simp add: Cons.IH)
  next
    case False
    with Cons.prems have "key = k" by simp
    with False show ?thesis by (simp add: set_restval_other)
  qed
qed

lemma dict_zip_in:
  "k \<in> set (take (length vs) ks) \<Longrightarrow> \<exists>v\<in>set vs. dict_zip ks vs d k = Some (PyStr v)"
proof (induction ks arbitrary: vs d)
  case Nil
  then show ?case by simp
next
  case (Cons a ks)
  from Cons.prems obtain v vs' where vs: "vs = v # vs'" by (cases vs) auto
  show ?case
  proof (cases "k \<in> set (take (length vs') ks)")
    case True
    from Cons.IH [OF True] obtain w
      where "w \<in> set vs'" and "dict_zip ks vs' (d(a \<mapsto> PyStr v)) k = Some (PyStr w)"
      by blast
    with vs show ?thesis by auto
  next
    case False
    with Cons.prems vs have "a = k" by auto
    with False vs show ?thesis by (simp add: dict_zip_other)
  qed
qed


lemma DictReader_row_full:
  assumes "length fnames \<le> length row" and "col \<in> set fnames"
  shows "\<exists>v\<in>set row. DictReader_row fnames row col = Some (PyStr v)"
proof -
  from assms have "col \<in> set (take (length row) fnames)" by simp
  from dict_zip_in [OF this, of Map.empty] assms(1) show ?thesis
    by (simp add: DictReader_row_def Let_def)
qed



lemma DictReader_row_short:
  assumes "col \<in> set (drop (length row) fnames)"
  shows "DictReader_row fnames row col = Some PyNone"
proof -
  from assms have "length row < length fnames" by (cases "length row < length fnames") auto
  with assms show ?thesis
    by (simp add: DictReader_row_def Let_def set_restval_in)
qed

lemma DictReader_row_keys:
  assumes "col \<in> set fnames"
  shows "DictReader_row fnames row col \<noteq> None"
proof (cases "col \<in> set (drop (length row) fnames)")
  case True
  then show ?thesis by (simp add: DictReader_row_short)
next
  case False
  have "set fnames = set (take (length row) fnames) \<union> set (drop (length row) fnames)"
    by (simp only: set_append [symmetric] append_take_drop_id)
  with assms False have "col \<in> set (take (length row) fnames)" by simp
  from dict_zip_in [OF this, of Map.empty] obtain v
    where "dict_zip fnames row Map.empty col = Some (PyStr v)"
    by blast
  with False show ?thesis
    by (simp add: DictReader_row_def Let_def set_restval_other)
qed


subsection \<open>rows_loop\<close>

lemma column_value_total:
  assumes "\<forall>col\<in>set cols. \<exists>s. row col = Some (PyStr s)"
  shows "\<exists>vs. list_all2 (\<lambda>col v. column_value row col = Inr v) cols vs"
  using assms
proof (induction cols)
  case Nil
  then show ?case by simp
next
  case (Cons col cols)
  then obtain vs where vs: "list_all2 (\<lambda>col v. column_value row col = Inr v) cols vs"
    by auto
  from Cons.prems obtain s where "row col = Some (PyStr s)" by auto
  then obtain v where "column_value row col = Inr v"
    by (cases "col = ''status'' \<or> col = ''rate''")
      (auto simp add: column_value_numeric column_value_quoted)
  with vs have "list_all2 (\<lambda>col v. column_value row col = Inr v) (col # cols) (v # vs)"
    by simp
  then show ?case by blast
qed

lemma record_values:
  assumes "length columns \<le> length r"
  shows "\<exists>vs. columns_loop (DictReader_row columns r) columns [] = Inr vs"
proof -
  have "\<forall>col\<in>set columns. \<exists>s. DictReader_row columns r col = Some (PyStr s)"
    using DictReader_row_full [OF assms] by blast
  from column_value_total [OF this] show ?thesis
    by (auto simp add: columns_loop_Inr)
qed

lemma rows_loop_returns:
  assumes "list_all2 (\<lambda>r vs. r \<noteq> [] \<and>
      columns_loop (DictReader_row columns r) columns [] = Inr vs) records vss"
  shows "rows_loop columns records None rows =
     Inr (rows @ map (\<lambda>vs. ''('' @ join '', '' vs @ '')'') vss)"
  using assms
proof (induction records vss arbitrary: rows rule: list_all2_induct)
  case Nil
  show ?case by simp
next
  case (Cons r vs records vss)
  from Cons.hyps(1) Cons.IH show ?case by simp
qed

lemma wellformed_records:
  assumes "columns \<noteq> []" and "\<forall>r\<in>set records. length columns \<le> length r"
  shows "\<exists>vss. list_all2 (\<lambda>r vs. r \<noteq> [] \<and>
      columns_loop (DictReader_row columns r) columns [] = Inr vs) records vss"
  using assms(2)
proof (induction records)
  case Nil
  show ?case by simp
next
  case (Cons r records)
  then obtain vss where vss: "list_all2 (\<lambda>r vs. r \<noteq> [] \<and>
      columns_loop (DictReader_row columns r) columns [] = Inr vs) records vss"
    by auto
  from Cons.prems have len: "length columns \<le> length r" by simp
  with assms(1) have "r \<noteq> []" by auto
  moreover from record_values [OF len] obtain vs
    where "columns_loop (DictReader_row columns r) columns [] = Inr vs" by blast
  ultimately have "list_all2 (\<lambda>r vs. r \<noteq> [] \<and>
      columns_loop (DictReader_row columns r) columns [] = Inr vs) (r # records) (vs # vss)"
    using vss by simp
  then show ?case by blast
qed

lemma rows_loop_raises:
  assumes "r \<in> set records" and "r \<noteq> []"
    and "columns_loop (DictReader_row columns r) columns [] = Inl e"
  shows "\<exists>r'\<in>set records. \<exists>e'. r' \<noteq> [] \<and>
      columns_loop (DictReader_row columns r') columns [] = Inl e' \<and>
      rows_loop columns records err rows = Inl e'"
  using assms(1)
proof (induction records arbitrary: rows)
  case Nil
  then show ?case by simp
next
  case (Cons a records)
  show ?case
  proof (cases "a = []")
    case True
    with Cons.prems assms(2) have "r \<in> set records" by auto
    from Cons.IH [OF this] True show ?thesis by auto
  next
    case False
    show ?thesis
    proof (cases "columns_loop (DictReader_row columns a) columns []")
      case (Inl e')
      with False show ?thesis by auto
    next
      case (Inr vs)
      with Cons.prems assms(3) have "r \<in> set records" by auto
      from Cons.IH [OF this] False Inr show ?thesis by auto
    qed
  qed
qed

lemma rows_loop_Inl_cases:
  assumes "rows_loop columns records err rows = Inl e"
  shows "err = Some e \<or> (\<exists>r\<in>set records. r \<noteq> [] \<and>
      columns_loop (DictReader_row columns r) columns [] = Inl e)"
  using assms
proof (induction records arbitrary: rows)
  case Nil
  then show ?case by (cases err) auto
next
  case (Cons a records)
  show ?case
  proof (cases "a = []")
    case True
    with Cons show ?thesis by auto
  next
    case False
    show ?thesis
    proof (cases "columns_loop (DictReader_row columns a) columns []")
      case (Inl e')
      with False Cons.prems show ?thesis by auto
    next
      case (Inr vs)
      with False Cons.prems have "rows_loop columns records err
          (rows @ [''('' @ join '', '' vs @ '')'']) = Inl e" by simp
      from Cons.IH [OF this] show ?thesis by auto
    qed
  qed
qed

lemma with_body_columns:
  assumes "reader (file_lines text) = (columns # records, err)" and "columns \<noteq> []"
  shows "with_body text table_name =
     (case rows_loop columns records err [] of
        Inl e \<Rightarrow>
          (''INSERT INTO '' @ table_name @ '' ('' @ join '', '' columns @ '') VALUES'' @ [LF],
           Inl e)
      | Inr rows \<Rightarrow>
          (''INSERT INTO '' @ table_name @ '' ('' @ join '', '' columns @ '') VALUES'' @ [LF]
             @ join ('','' @ [LF]) rows @ '';'', Inr ()))"
proof -
  from assms(2) obtain c cs where "columns = c # cs" by (cases columns) auto
  with assms(1) show ?thesis
    by (simp add: with_body_def fieldnames_def Let_def split: sum.splits)
qed

lemma with_body_no_header:
  assumes "fieldnames (reader (file_lines text)) = Inr None
      \<or> fieldnames (reader (file_lines text)) = Inr (Some [])"
  shows "with_body text table_name = ([], Inl (ValueError ''CSV file has no headers''))"
  using assms by (auto simp add: with_body_def)

section \<open>The worked example\<close>

text \<open>
  C1. For the two-line input with the header
  \<^verbatim>\<open>id;worker_id;user_id;status;deadline;address;creation_date;rate\<close> and the single data
  row \<^verbatim>\<open>1;7;3;1;2024-01-01;O'Hara St;2023-12-01;9.5\<close> (the last line with or without a
  line feed) and the table name \<^verbatim>\<open>orders\<close>, the converter writes exactly the expected
  INSERT statement to the output file and prints the success message.
\<close>

theorem C1_example:
  assumes "files csv_file_path = Some (''id;worker_id;user_id;status;deadline;address;creation_date;rate'' @ [LF]
       @ ''1;7;3;1;2024-01-01;O'' @ [sq] @ ''Hara St;2023-12-01;9.5'' @ nl)"
    and "nl = [] \<or> nl = [LF]"
    and "csv_file_path \<noteq> output_file_path"
  shows "csv_to_sql_insert files csv_file_path output_file_path ''orders'' =
     (files(output_file_path \<mapsto> ''INSERT INTO orders (id, worker_id, user_id, status, deadline, address, creation_date, rate) VALUES''
          @ [LF] @ ''('' @ [sq] @ ''1'' @ [sq] @ '', '' @ [sq] @ ''7'' @ [sq] @ '', ''
          @ [sq] @ ''3'' @ [sq] @ '', 1, '' @ [sq] @ ''2024-01-01'' @ [sq] @ '', ''
          @ [sq] @ ''O'' @ [sq, sq] @ ''Hara St'' @ [sq] @ '', ''
          @ [sq] @ ''2023-12-01'' @ [sq] @ '', 9.5);''),
      [''Successfully converted CSV to SQL INSERT statements. Output saved to ''
       @ output_file_path])"
proof -
  have "with_body (''id;worker_id;user_id;status;deadline;address;creation_date;rate'' @ [LF]
       @ ''1;7;3;1;2024-01-01;O'' @ [sq] @ ''Hara St;2023-12-01;9.5'' @ nl) ''orders'' =
     (''INSERT INTO orders (id, worker_id, user_id, status, deadline, address, creation_date, rate) VALUES''
          @ [LF] @ ''('' @ [sq] @ ''1'' @ [sq] @ '', '' @ [sq] @ ''7'' @ [sq] @ '', ''
          @ [sq] @ ''3'' @ [sq] @ '', 1, '' @ [sq] @ ''2024-01-01'' @ [sq] @ '', ''
          @ [sq] @ ''O'' @ [sq, sq] @ ''Hara St'' @ [sq] @ '', ''
          @ [sq] @ ''2023-12-01'' @ [sq] @ '', 9.5);'', Inr ())"
    using assms(2)
    by (elim disjE) (simp_all only: append_Nil2 example_body example_body_newline)
  with assms(1,3) show ?thesis
    by (rule csv_to_sql_insert_returns [where files = files and csv_file_path = csv_file_path])
qed

theorem C1_example_witness:
  "csv_to_sql_insert
     (Map.empty(''orders_data.csv'' \<mapsto> ''id;worker_id;user_id;status;deadline;address;creation_date;rate'' @ [LF]
       @ ''1;7;3;1;2024-01-01;O'' @ [sq] @ ''Hara St;2023-12-01;9.5''))
     ''orders_data.csv'' ''orders_data.sql'' ''orders'' =
   ((Map.empty(''orders_data.csv'' \<mapsto> ''id;worker_id;user_id;status;deadline;address;creation_date;rate'' @ [LF]
       @ ''1;7;3;1;2024-01-01;O'' @ [sq] @ ''Hara St;2023-12-01;9.5''))
      (''orders_data.sql'' \<mapsto> ''INSERT INTO orders (id, worker_id, user_id, status, deadline, address, creation_date, rate) VALUES''
          @ [LF] @ ''('' @ [sq] @ ''1'' @ [sq] @ '', '' @ [sq] @ ''7'' @ [sq] @ '', ''
          @ [sq] @ ''3'' @ [sq] @ '', 1, '' @ [sq] @ ''2024-01-01'' @ [sq] @ '', ''
          @ [sq] @ ''O'' @ [sq, sq] @ ''Hara St'' @ [sq] @ '', ''
          @ [sq] @ ''2023-12-01'' @ [sq] @ '', 9.5);''),
    [''Successfully converted CSV to SQL INSERT statements. Output saved to orders_data.sql''])"
  using C1_example [of "Map.empty(''orders_data.csv'' \<mapsto> ''id;worker_id;user_id;status;deadline;address;creation_date;rate'' @ [LF]
       @ ''1;7;3;1;2024-01-01;O'' @ [sq] @ ''Hara St;2023-12-01;9.5'')"
      "''orders_data.csv''" "[]" "''orders_data.sql''"]
  by simp

section \<open>The formatting of values\<close>

lemma count_doubled:
  "length (filter (\<lambda>c. c = q) (concat (map (\<lambda>c. if c = q then [q, q] else [c]) v))) =
     2 * length (filter (\<lambda>c. c = q) v)"
  by (induction v) simp_all

lemma unquoted_doubled:
  "filter (\<lambda>c. c \<noteq> q) (concat (map (\<lambda>c. if c = q then [q, q] else [c]) v)) =
     filter (\<lambda>c. c \<noteq> q) v"
  by (induction v) simp_all

lemma columns_loop_nth:
  assumes "columns_loop row columns [] = Inr vs" and "i < length columns"
  shows "column_value row (columns ! i) = Inr (vs ! i)"
proof -
  from assms(1) have "list_all2 (\<lambda>col v. column_value row col = Inr v) columns vs"
    by (simp add: columns_loop_Inr)
  from list_all2_nthD [OF this assms(2)] show ?thesis .
qed

text \<open>
  C2. In a value tuple, the value emitted for a column named neither \<^verbatim>\<open>status\<close> nor
  \<^verbatim>\<open>rate\<close> is the raw string with every single quote doubled, between one pair of outer
  single quotes: the number of single quotes in it is twice that of the raw string plus the two
  outer ones, and the other characters are unchanged.
\<close>

theorem C2_quoted_value:
  assumes "columns_loop row columns [] = Inr vs"
    and "i < length columns"
    and "columns ! i \<noteq> ''status''"
    and "columns ! i \<noteq> ''rate''"
    and "row (columns ! i) = Some (PyStr v)"
  shows "vs ! i = [sq] @ concat (map (\<lambda>c. if c = sq then [sq, sq] else [c]) v) @ [sq]
    \<and> length (filter (\<lambda>c. c = sq) (vs ! i)) = 2 * length (filter (\<lambda>c. c = sq) v) + 2
    \<and> filter (\<lambda>c. c \<noteq> sq) (vs ! i) = filter (\<lambda>c. c \<noteq> sq) v"
proof -
  from columns_loop_nth [OF assms(1,2)]
    column_value_quoted [where row = row, OF assms(5,3,4)]
  have "vs ! i = [sq] @ concat (map (\<lambda>c. if c = sq then [sq, sq] else [c]) v) @ [sq]"
    by simp
  then show ?thesis
    by (simp add: count_doubled unquoted_doubled)
qed

theorem C2_quoted_value_witness:
  "columns_loop (DictReader_row [''id'', ''address''] [''1'', ''O'' @ [sq] @ ''Hara''])
       [''id'', ''address''] [] =
     Inr [[sq] @ ''1'' @ [sq], [sq] @ ''O'' @ [sq, sq] @ ''Hara'' @ [sq]]
   \<and> [[sq] @ ''1'' @ [sq], [sq] @ ''O'' @ [sq, sq] @ ''Hara'' @ [sq]] ! 1 =
       [sq] @ concat (map (\<lambda>c. if c = sq then [sq, sq] else [c]) (''O'' @ [sq] @ ''Hara'')) @ [sq]"
proof -
  have run: "columns_loop (DictReader_row [''id'', ''address''] [''1'', ''O'' @ [sq] @ ''Hara''])
       [''id'', ''address''] [] =
     Inr [[sq] @ ''1'' @ [sq], [sq] @ ''O'' @ [sq, sq] @ ''Hara'' @ [sq]]"
    by (simp add: DictReader_row_def getitem_def column_value_def str_replace_char sq_def)
  have val: "DictReader_row [''id'', ''address''] [''1'', ''O'' @ [sq] @ ''Hara'']
      ([''id'', ''address''] ! 1) = Some (PyStr (''O'' @ [sq] @ ''Hara''))"
    by (simp add: DictReader_row_def)
  from C2_quoted_value [OF run _ _ _ val] run show ?thesis by simp
qed

text \<open>
  C3. In a value tuple, the value emitted for a column named \<^verbatim>\<open>status\<close> or
  \<^verbatim>\<open>rate\<close> is the raw string itself, without surrounding quotes and without doubling of
  quotes, whatever the string is.
\<close>

theorem C3_numeric_value:
  assumes "columns_loop row columns [] = Inr vs"
    and "i < length columns"
    and "columns ! i = ''status'' \<or> columns ! i = ''rate''"
    and "row (columns ! i) = Some (PyStr v)"
  shows "vs ! i = v"
proof -
  from columns_loop_nth [OF assms(1,2)]
    column_value_numeric [where row = row, OF assms(4,3)]
  show ?thesis by simp
qed

theorem C3_numeric_value_witness:
  "columns_loop (DictReader_row [''id'', ''rate''] [''1'', ''n/a '' @ [sq]])
       [''id'', ''rate''] [] = Inr [[sq] @ ''1'' @ [sq], ''n/a '' @ [sq]]
   \<and> [[sq] @ ''1'' @ [sq], ''n/a '' @ [sq]] ! 1 = ''n/a '' @ [sq]"
proof -
  have run: "columns_loop (DictReader_row [''id'', ''rate''] [''1'', ''n/a '' @ [sq]])
       [''id'', ''rate''] [] = Inr [[sq] @ ''1'' @ [sq], ''n/a '' @ [sq]]"
    by (simp add: DictReader_row_def getitem_def column_value_def str_replace_char sq_def)
  have val: "DictReader_row [''id'', ''rate''] [''1'', ''n/a '' @ [sq]]
      ([''id'', ''rate''] ! 1) = Some (PyStr (''n/a '' @ [sq]))"
    by (simp add: DictReader_row_def)
  from C3_numeric_value [OF run _ _ val] run show ?thesis by simp
qed

section \<open>Well-formed inputs\<close>

lemma wellformed_run:
  assumes "files csv_file_path = Some text"
    and "csv_file_path \<noteq> output_file_path"
    and "reader (file_lines text) = (columns # records, None)"
    and "columns \<noteq> []"
    and "\<forall>r\<in>set records. length columns \<le> length r"
  shows "\<exists>vss. list_all2 (\<lambda>r vs.
        list_all2 (\<lambda>col v. column_value (DictReader_row columns r) col = Inr v) columns vs)
        records vss
    \<and> csv_to_sql_insert files csv_file_path output_file_path table_name =
       (files(output_file_path \<mapsto>
          ''INSERT INTO '' @ table_name @ '' ('' @ join '', '' columns @ '') VALUES'' @ [LF]
          @ join ('','' @ [LF]) (map (\<lambda>vs. ''('' @ join '', '' vs @ '')'') vss) @ '';''),
        [''Successfully converted CSV to SQL INSERT statements. Output saved to ''
         @ output_file_path])"
proof -
  from wellformed_records [OF assms(4,5)] obtain vss
    where vss: "list_all2 (\<lambda>r vs. r \<noteq> [] \<and>
      columns_loop (DictReader_row columns r) columns [] = Inr vs) records vss"
    by blast
  from rows_loop_returns [OF vss, of "[]"]
  have "with_body text table_name =
     (''INSERT INTO '' @ table_name @ '' ('' @ join '', '' columns @ '') VALUES'' @ [LF]
        @ join ('','' @ [LF]) (map (\<lambda>vs. ''('' @ join '', '' vs @ '')'') vss) @ '';'', Inr ())"
    by (simp add: with_body_columns [OF assms(3,4)])
  with assms(1,2) have "csv_to_sql_insert files csv_file_path output_file_path table_name =
       (files(output_file_path \<mapsto>
          ''INSERT INTO '' @ table_name @ '' ('' @ join '', '' columns @ '') VALUES'' @ [LF]
          @ join ('','' @ [LF]) (map (\<lambda>vs. ''('' @ join '', '' vs @ '')'') vss) @ '';''),
        [''Successfully converted CSV to SQL INSERT statements. Output saved to ''
         @ output_file_path])"
    by (rule csv_to_sql_insert_returns [where files = files and csv_file_path = csv_file_path])
  moreover from vss have "list_all2 (\<lambda>r vs.
        list_all2 (\<lambda>col v. column_value (DictReader_row columns r) col = Inr v) columns vs)
        records vss"
    by (rule list_all2_mono) (simp add: columns_loop_Inr)
  ultimately show ?thesis by blast
qed

lemma join_concat:
  "join sep xs = drop (length sep) (concat (map (\<lambda>x. sep @ x) xs))"
  by (induction sep xs rule: join.induct) simp_all

lemma join_comma_space:
  "join '', '' xs = drop 2 (concat (map (\<lambda>x. '', '' @ x) xs))"
  by (simp add: join_concat numeral_2_eq_2)

lemma join_comma_newline:
  "join ('','' @ [LF]) xs = drop 2 (concat (map (\<lambda>x. [CHR '','', CHR 0x0A] @ x) xs))"
  by (simp add: join_concat numeral_2_eq_2 LF_def)

lemma dict_zip_map_of:
  "dict_zip ks vs d k =
     (case map_of (rev (zip ks vs)) k of None \<Rightarrow> d k | Some v \<Rightarrow> Some (PyStr v))"
proof (induction ks arbitrary: vs d)
  case Nil
  show ?case by simp
next
  case (Cons a ks)
  show ?case
  proof (cases vs)
    case Nil
    then show ?thesis by simp
  next
    case (Cons v vs')
    then show ?thesis
      by (simp add: Cons.IH map_add_def split: option.splits)
  qed
qed

lemma DictReader_row_map_of:
  assumes "length fnames \<le> length row" and "col \<in> set fnames"
  shows "\<exists>raw. map_of (rev (zip fnames row)) col = Some raw
    \<and> DictReader_row fnames row col = Some (PyStr raw)"
proof -
  from DictReader_row_full [OF assms] obtain v
    where v: "DictReader_row fnames row col = Some (PyStr v)" by blast
  with assms(1) have "dict_zip fnames row Map.empty col = Some (PyStr v)"
    by (simp add: DictReader_row_def Let_def)
  then have "map_of (rev (zip fnames row)) col = Some v"
    by (simp add: dict_zip_map_of split: option.splits)
  with v show ?thesis by blast
qed


lemma column_value_explicit:
  assumes "row col = Some (PyStr raw)"
  shows "column_value row col = Inr (if col = ''status'' \<or> col = ''rate'' then raw
              else [CHR 0x27] @ concat (map (\<lambda>c. if c = CHR 0x27 then [CHR 0x27, CHR 0x27] else [c]) raw)
                @ [CHR 0x27])"
  using assms
  by (simp add: column_value_def getitem_def str_replace_char sq_def)

lemma example_two_rows_reader:
  "reader (file_lines (''id;status'' @ [LF] @ ''1;2'' @ [LF] @ ''3;4'' @ [LF])) =
     ([''id'', ''status''] # [[''1'', ''2''], [''3'', ''4'']], None)"
  by (simp add: file_lines_def reader_def parse_defs)


text \<open>
  C4. For a well-formed input (the record reader yields a non-empty header and then records
  that each have at least as many fields as the header), the output file holds the INSERT
  line, then one parenthesized value tuple for each data record, in the order of the records
  and as many as there are records, joined with a comma and a line feed, then a semicolon. The
  tuple of a record is fixed by the record: its values, joined with a comma and a space, are
  the formatted entries of the record under the header's column names.
\<close>

theorem C4_tuple_count:
  assumes "files csv_file_path = Some content"
    and "csv_file_path \<noteq> output_file_path"
    and "reader (file_lines content) = (columns # records, None)"
    and "columns \<noteq> []"
    and "\<forall>r\<in>set records. length columns \<le> length r"
  shows "\<exists>tuples. length tuples = length records
    \<and> list_all2 (\<lambda>r t. \<exists>vs.
          list_all2 (\<lambda>col v. \<exists>raw. map_of (rev (zip columns r)) col = Some raw
            \<and> v = (if col = ''status'' \<or> col = ''rate'' then raw
              else [CHR 0x27] @ concat (map (\<lambda>c. if c = CHR 0x27 then [CHR 0x27, CHR 0x27] else [c]) raw)
                @ [CHR 0x27])) columns vs
          \<and> t = ''('' @ drop 2 (concat (map (\<lambda>v. '', '' @ v) vs)) @ '')'') records tuples
    \<and> csv_to_sql_insert files csv_file_path output_file_path table_name =
       (files(output_file_path \<mapsto>
          ''INSERT INTO '' @ table_name @ '' ('' @ drop 2 (concat (map (\<lambda>c. '', '' @ c) columns))
          @ '') VALUES'' @ [CHR 0x0A]
          @ drop 2 (concat (map (\<lambda>t. [CHR '','', CHR 0x0A] @ t) tuples)) @ '';''),
        [''Successfully converted CSV to SQL INSERT statements. Output saved to ''
         @ output_file_path])"
proof -
  from wellformed_run [where files = files and csv_file_path = csv_file_path
      and table_name = table_name, OF assms(1-5)] obtain vss
    where vss: "list_all2 (\<lambda>r vs.
        list_all2 (\<lambda>col v. column_value (DictReader_row columns r) col = Inr v) columns vs)
        records vss"
      and run: "csv_to_sql_insert files csv_file_path output_file_path table_name =
       (files(output_file_path \<mapsto>
          ''INSERT INTO '' @ table_name @ '' ('' @ join '', '' columns @ '') VALUES'' @ [LF]
          @ join ('','' @ [LF]) (map (\<lambda>vs. ''('' @ join '', '' vs @ '')'') vss) @ '';''),
        [''Successfully converted CSV to SQL INSERT statements. Output saved to ''
         @ output_file_path])"
    by blast
  note run' = run [unfolded join_comma_space join_comma_newline, unfolded LF_def]
  let ?tuples = "map (\<lambda>vs. ''('' @ drop 2 (concat (map (\<lambda>v. '', '' @ v) vs)) @ '')'') vss"
  from vss have len: "length ?tuples = length records"
    by (simp add: list_all2_lengthD)
  have "list_all2 (\<lambda>r t. \<exists>vs.
          list_all2 (\<lambda>col v. \<exists>raw. map_of (rev (zip columns r)) col = Some raw
            \<and> v = (if col = ''status'' \<or> col = ''rate'' then raw
              else [CHR 0x27] @ concat (map (\<lambda>c. if c = CHR 0x27 then [CHR 0x27, CHR 0x27] else [c]) raw)
                @ [CHR 0x27])) columns vs
          \<and> t = ''('' @ drop 2 (concat (map (\<lambda>v. '', '' @ v) vs)) @ '')'') records ?tuples"
    unfolding list_all2_map2
  proof (rule list.rel_mono_strong [OF vss])
    fix r vs
    assume r: "r \<in> set records"
      and vs: "list_all2 (\<lambda>col v. column_value (DictReader_row columns r) col = Inr v) columns vs"
    from r assms(5) have len: "length columns \<le> length r" by simp
    have "list_all2 (\<lambda>col v. \<exists>raw. map_of (rev (zip columns r)) col = Some raw
            \<and> v = (if col = ''status'' \<or> col = ''rate'' then raw
              else [CHR 0x27] @ concat (map (\<lambda>c. if c = CHR 0x27 then [CHR 0x27, CHR 0x27] else [c]) raw)
                @ [CHR 0x27])) columns vs"
    proof (rule list.rel_mono_strong [OF vs])
      fix col v
      assume "col \<in> set columns"
        and v: "column_value (DictReader_row columns r) col = Inr v"
      with DictReader_row_map_of [OF len] obtain raw
        where raw: "map_of (rev (zip columns r)) col = Some raw"
          and "DictReader_row columns r col = Some (PyStr raw)"
        by blast
      from column_value_explicit [where row = "DictReader_row columns r", OF this(2)] v
      have "v = (if col = ''status'' \<or> col = ''rate'' then raw
              else [CHR 0x27] @ concat (map (\<lambda>c. if c = CHR 0x27 then [CHR 0x27, CHR 0x27] else [c]) raw)
                @ [CHR 0x27])"
        by simp
      with raw show "\<exists>raw. map_of (rev (zip columns r)) col = Some raw
            \<and> v = (if col = ''status'' \<or> col = ''rate'' then raw
              else [CHR 0x27] @ concat (map (\<lambda>c. if c = CHR 0x27 then [CHR 0x27, CHR 0x27] else [c]) raw)
                @ [CHR 0x27])"
        by blast
    qed
    then show "\<exists>vs'.
          list_all2 (\<lambda>col v. \<exists>raw. map_of (rev (zip columns r)) col = Some raw
            \<and> v = (if col = ''status'' \<or> col = ''rate'' then raw
              else [CHR 0x27] @ concat (map (\<lambda>c. if c = CHR 0x27 then [CHR 0x27, CHR 0x27] else [c]) raw)
                @ [CHR 0x27])) columns vs'
          \<and> ''('' @ drop 2 (concat (map (\<lambda>v. '', '' @ v) vs)) @ '')'' =
              ''('' @ drop 2 (concat (map (\<lambda>v. '', '' @ v) vs')) @ '')''"
      by blast
  qed
  with len run' show ?thesis by blast
qed

theorem C4_tuple_count_witness:
  "\<exists>tuples. length tuples = length [[''1'', ''2''], [''3'', ''4'']]
    \<and> list_all2 (\<lambda>r t. \<exists>vs.
          list_all2 (\<lambda>col v. \<exists>raw. map_of (rev (zip [''id'', ''status''] r)) col = Some raw
            \<and> v = (if col = ''status'' \<or> col = ''rate'' then raw
              else [CHR 0x27] @ concat (map (\<lambda>c. if c = CHR 0x27 then [CHR 0x27, CHR 0x27] else [c]) raw)
                @ [CHR 0x27])) [''id'', ''status''] vs
          \<and> t = ''('' @ drop 2 (concat (map (\<lambda>v. '', '' @ v) vs)) @ '')'') [[''1'', ''2''], [''3'', ''4'']] tuples
    \<and> csv_to_sql_insert (Map.empty(''in.csv'' \<mapsto> ''id;status'' @ [LF] @ ''1;2'' @ [LF] @ ''3;4'' @ [LF])) ''in.csv'' ''out.sql'' ''t'' =
       ((Map.empty(''in.csv'' \<mapsto> ''id;status'' @ [LF] @ ''1;2'' @ [LF] @ ''3;4'' @ [LF]))(''out.sql'' \<mapsto>
          ''INSERT INTO '' @ ''t'' @ '' ('' @ drop 2 (concat (map (\<lambda>c. '', '' @ c) [''id'', ''status'']))
          @ '') VALUES'' @ [CHR 0x0A]
          @ drop 2 (concat (map (\<lambda>t. [CHR '','', CHR 0x0A] @ t) tuples)) @ '';''),
        [''Successfully converted CSV to SQL INSERT statements. Output saved to ''
         @ ''out.sql''])"
proof -
  have h1: "(Map.empty(''in.csv'' \<mapsto> ''id;status'' @ [LF] @ ''1;2'' @ [LF] @ ''3;4'' @ [LF])) ''in.csv'' = Some (''id;status'' @ [LF] @ ''1;2'' @ [LF] @ ''3;4'' @ [LF])"
    by simp
  have h2: "''in.csv'' \<noteq> ''out.sql''" by simp
  have h4: "[''id'', ''status''] \<noteq> []" by simp
  have h5: "\<forall>r\<in>set [[''1'', ''2''], [''3'', ''4'']]. length [''id'', ''status''] \<le> length r"
    by simp
  from C4_tuple_count [where files = "(Map.empty(''in.csv'' \<mapsto> ''id;status'' @ [LF] @ ''1;2'' @ [LF] @ ''3;4'' @ [LF]))" and csv_file_path = "''in.csv''"
      and table_name = "''t''", OF h1 h2 example_two_rows_reader h4 h5]
  show ?thesis .
qed




section \<open>Missing header and missing input\<close>

lemma example_short_reader:
  "reader (file_lines (''id;status'' @ [LF] @ ''1'' @ [LF])) =
     ([''id'', ''status''] # [[''1'']], None)"
  by (simp add: file_lines_def reader_def parse_defs)

lemma example_short_name_reader:
  "reader (file_lines (''id;name'' @ [LF] @ ''1'' @ [LF])) =
     ([''id'', ''name''] # [[''1'']], None)"
  by (simp add: file_lines_def reader_def parse_defs)

lemma empty_reader: "reader (file_lines []) = ([], None)"
  by (simp add: file_lines_def reader_def parse_defs)

lemma csv_to_sql_insert_same_path:
  assumes "files csv_file_path = Some text"
  shows "csv_to_sql_insert files csv_file_path csv_file_path table_name =
     (files(csv_file_path \<mapsto> []), [''An error occurred: CSV file has no headers''])"
proof -
  have "with_body [] table_name = ([], Inl (ValueError ''CSV file has no headers''))"
    by (rule with_body_no_header) (simp add: empty_reader fieldnames_def)
  with assms show ?thesis by (simp add: csv_to_sql_insert_def)
qed

text \<open>
  C6 (as stated, refuted). With an empty input file and no file at the output path, the
  converter prints the error for a missing header, and afterwards a file exists at the output
  path: it was created, empty, when the output was opened.
\<close>

theorem C6_output_created_counterexample:
  "(Map.empty(''in.csv'' \<mapsto> [])) ''out.sql'' = None
   \<and> csv_to_sql_insert (Map.empty(''in.csv'' \<mapsto> [])) ''in.csv'' ''out.sql'' ''orders'' =
       ((Map.empty(''in.csv'' \<mapsto> []))(''out.sql'' \<mapsto> []),
        [''An error occurred: CSV file has no headers''])
   \<and> fst (csv_to_sql_insert (Map.empty(''in.csv'' \<mapsto> [])) ''in.csv'' ''out.sql'' ''orders'')
        ''out.sql'' \<noteq> None"
proof -
  have "with_body [] ''orders'' = ([], Inl (ValueError ''CSV file has no headers''))"
    by (rule with_body_no_header) (simp add: empty_reader fieldnames_def)
  then show ?thesis by (simp add: csv_to_sql_insert_def)
qed

text \<open>
  C6 (amended). Given an existing input file in which no header is found (the reader yields
  no record at all, as for an empty file, or a first record without fields), the converter
  prints the error message for a missing header and no success message; the output file is
  created or emptied and nothing is written to it.
\<close>

theorem C6_no_header:
  assumes "files csv_file_path = Some text"
    and "fieldnames (reader (file_lines text)) = Inr None
      \<or> fieldnames (reader (file_lines text)) = Inr (Some [])"
  shows "csv_to_sql_insert files csv_file_path output_file_path table_name =
     (files(output_file_path \<mapsto> []), [''An error occurred: CSV file has no headers''])"
proof (cases "csv_file_path = output_file_path")
  case True
  with csv_to_sql_insert_same_path [where files = files, OF assms(1)] show ?thesis by simp
next
  case False
  from with_body_no_header [OF assms(2)]
  have "with_body text table_name = ([], Inl (ValueError ''CSV file has no headers''))" .
  with assms(1) False
  have "csv_to_sql_insert files csv_file_path output_file_path table_name =
     (files(output_file_path \<mapsto> []),
      [handler (ValueError ''CSV file has no headers'') csv_file_path])"
    by (rule csv_to_sql_insert_raises [where files = files and csv_file_path = csv_file_path])
  then show ?thesis by simp
qed

theorem C6_no_header_witness:
  "fieldnames (reader (file_lines [])) = Inr None
   \<and> csv_to_sql_insert (Map.empty(''in.csv'' \<mapsto> [], ''out.sql'' \<mapsto> ''old''))
       ''in.csv'' ''out.sql'' ''orders'' =
     ((Map.empty(''in.csv'' \<mapsto> [], ''out.sql'' \<mapsto> ''old''))(''out.sql'' \<mapsto> []),
      [''An error occurred: CSV file has no headers''])"
proof -
  have h: "fieldnames (reader (file_lines [])) = Inr None"
    by (simp add: empty_reader fieldnames_def)
  have f: "(Map.empty(''in.csv'' \<mapsto> [], ''out.sql'' \<mapsto> ''old'')) ''in.csv'' = Some []"
    by simp
  from C6_no_header [where files = "Map.empty(''in.csv'' \<mapsto> [], ''out.sql'' \<mapsto> ''old'')"
      and csv_file_path = "''in.csv''", OF f disjI1 [OF h]] h
  show ?thesis by blast
qed

text \<open>
  C8. Given an input path at which there is no file, the converter prints the file-not-found
  message for that path and leaves the file system as it was: no file is created at the
  output path and an existing one is not modified. The interactive entry point prints its own
  message and does not call the converter.
\<close>

theorem C8_file_not_found:
  assumes "files csv_file_path = None"
  shows "csv_to_sql_insert files csv_file_path output_file_path table_name =
       (files, [''Error: File not found - '' @ csv_file_path])
    \<and> main files csv_file_path output_file_path table_name =
       (files, [''Error: Input file '' @ [sq] @ csv_file_path @ [sq] @ '' not found''])"
  using assms by (simp add: csv_to_sql_insert_def main_def)

theorem C8_file_not_found_witness:
  "csv_to_sql_insert (Map.empty(''out.sql'' \<mapsto> ''old'')) ''in.csv'' ''out.sql'' ''orders'' =
       (Map.empty(''out.sql'' \<mapsto> ''old''), [''Error: File not found - '' @ ''in.csv''])
    \<and> main (Map.empty(''out.sql'' \<mapsto> ''old'')) ''in.csv'' ''out.sql'' ''orders'' =
       (Map.empty(''out.sql'' \<mapsto> ''old''),
        [''Error: Input file '' @ [sq] @ ''in.csv'' @ [sq] @ '' not found''])"
proof -
  have "(Map.empty(''out.sql'' \<mapsto> ''old'')) ''in.csv'' = None" by simp
  from C8_file_not_found [where files = "Map.empty(''out.sql'' \<mapsto> ''old'')", OF this]
  show ?thesis .
qed

section \<open>Records shorter than the header\<close>

lemma rows_loop_AttributeError:
  assumes "r \<in> set records" and "r \<noteq> []"
    and "col \<in> set (drop (length r) columns)"
    and "col \<noteq> ''status''" and "col \<noteq> ''rate''"
  shows "rows_loop columns records err rows = Inl (AttributeError
       ([sq] @ ''NoneType'' @ [sq] @ '' object has no attribute '' @ [sq] @ ''replace'' @ [sq]))"
proof -
  from assms(3) have col: "col \<in> set columns" by (rule in_set_dropD)
  from DictReader_row_short [OF assms(3)]
  have "DictReader_row columns r col = Some PyNone" .
  from column_value_None [where row = "DictReader_row columns r", OF this assms(4,5)]
  have "\<exists>e. column_value (DictReader_row columns r) col = Inl e" by blast
  with col obtain e where "columns_loop (DictReader_row columns r) columns [] = Inl e"
    using columns_loop_fails [where row = "DictReader_row columns r"] by blast
  from rows_loop_raises [OF assms(1,2) this, of err rows] obtain r' e'
    where "columns_loop (DictReader_row columns r') columns [] = Inl e'"
      and res: "rows_loop columns records err rows = Inl e'"
    by blast
  from columns_loop_Inl [OF this(1)] obtain c
    where "c \<in> set columns" and "column_value (DictReader_row columns r') c = Inl e'"
    by blast
  with column_value_Inl [where row = "DictReader_row columns r'" and col = c and e = e']
    DictReader_row_keys [of c columns r']
  have "e' = AttributeError
       ([sq] @ ''NoneType'' @ [sq] @ '' object has no attribute '' @ [sq] @ ''replace'' @ [sq])"
    by blast
  with res show ?thesis by simp
qed

text \<open>
  C7 (as stated, refuted). The data row \<^verbatim>\<open>1\<close> under the header \<^verbatim>\<open>id;status\<close> lacks a
  value for the header column \<^verbatim>\<open>status\<close>; the conversion succeeds, writes the text
  \<^verbatim>\<open>None\<close> for the missing value and prints the success message.
\<close>

theorem C7_short_row_counterexample:
  "reader (file_lines (''id;status'' @ [LF] @ ''1'' @ [LF])) =
     ([[''id'', ''status''], [''1'']], None)
   \<and> csv_to_sql_insert (Map.empty(''in.csv'' \<mapsto> ''id;status'' @ [LF] @ ''1'' @ [LF]))
       ''in.csv'' ''out.sql'' ''t'' =
     ((Map.empty(''in.csv'' \<mapsto> ''id;status'' @ [LF] @ ''1'' @ [LF]))(''out.sql'' \<mapsto>
        ''INSERT INTO t (id, status) VALUES'' @ [LF] @ ''('' @ [sq] @ ''1'' @ [sq] @ '', None);''),
      [''Successfully converted CSV to SQL INSERT statements. Output saved to out.sql''])"
proof -
  have "with_body (''id;status'' @ [LF] @ ''1'' @ [LF]) ''t'' =
      (''INSERT INTO t (id, status) VALUES'' @ [LF] @ ''('' @ [sq] @ ''1'' @ [sq] @ '', None);'',
       Inr ())"
    by (simp add: convert_defs parse_defs)
  then have "csv_to_sql_insert (Map.empty(''in.csv'' \<mapsto> ''id;status'' @ [LF] @ ''1'' @ [LF]))
       ''in.csv'' ''out.sql'' ''t'' =
     ((Map.empty(''in.csv'' \<mapsto> ''id;status'' @ [LF] @ ''1'' @ [LF]))(''out.sql'' \<mapsto>
        ''INSERT INTO t (id, status) VALUES'' @ [LF] @ ''('' @ [sq] @ ''1'' @ [sq] @ '', None);''),
      [''Successfully converted CSV to SQL INSERT statements. Output saved to out.sql''])"
    by (simp add: csv_to_sql_insert_def)
  with example_short_reader show ?thesis by simp
qed

text \<open>
  C7 (amended). When some non-empty data record is shorter than the header and one of the
  header columns it leaves without a value is named neither \<^verbatim>\<open>status\<close> nor
  \<^verbatim>\<open>rate\<close>, the conversion fails: the error of calling \<^verbatim>\<open>replace\<close> on
  \<^verbatim>\<open>None\<close> is printed, no success message is printed, and the output file holds the
  INSERT line only.
\<close>

theorem C7_short_row:
  assumes "files csv_file_path = Some text"
    and "csv_file_path \<noteq> output_file_path"
    and "reader (file_lines text) = (columns # records, err)"
    and "columns \<noteq> []"
    and "r \<in> set records"
    and "r \<noteq> []"
    and "col \<in> set (drop (length r) columns)"
    and "col \<noteq> ''status''"
    and "col \<noteq> ''rate''"
  shows "csv_to_sql_insert files csv_file_path output_file_path table_name =
       (files(output_file_path \<mapsto>
          ''INSERT INTO '' @ table_name @ '' ('' @ join '', '' columns @ '') VALUES'' @ [LF]),
        [''An error occurred: '' @ [sq] @ ''NoneType'' @ [sq] @ '' object has no attribute ''
           @ [sq] @ ''replace'' @ [sq]])
    \<and> snd (csv_to_sql_insert files csv_file_path output_file_path table_name) \<noteq>
       [''Successfully converted CSV to SQL INSERT statements. Output saved to ''
        @ output_file_path]"
proof -
  from rows_loop_AttributeError [OF assms(5-9), of err "[]"]
  have "with_body text table_name =
      (''INSERT INTO '' @ table_name @ '' ('' @ join '', '' columns @ '') VALUES'' @ [LF],
       Inl (AttributeError
         ([sq] @ ''NoneType'' @ [sq] @ '' object has no attribute '' @ [sq] @ ''replace'' @ [sq])))"
    by (simp add: with_body_columns [OF assms(3,4)])
  with assms(1,2)
  have "csv_to_sql_insert files csv_file_path output_file_path table_name =
       (files(output_file_path \<mapsto>
          ''INSERT INTO '' @ table_name @ '' ('' @ join '', '' columns @ '') VALUES'' @ [LF]),
        [handler (AttributeError
         ([sq] @ ''NoneType'' @ [sq] @ '' object has no attribute '' @ [sq] @ ''replace'' @ [sq]))
         csv_file_path])"
    by (rule csv_to_sql_insert_raises [where files = files and csv_file_path = csv_file_path])
  then show ?thesis by simp
qed

theorem C7_short_row_witness:
  "csv_to_sql_insert (Map.empty(''in.csv'' \<mapsto> ''id;name'' @ [LF] @ ''1'' @ [LF]))
       ''in.csv'' ''out.sql'' ''t'' =
       ((Map.empty(''in.csv'' \<mapsto> ''id;name'' @ [LF] @ ''1'' @ [LF]))(''out.sql'' \<mapsto>
          ''INSERT INTO '' @ ''t'' @ '' ('' @ join '', '' [''id'', ''name''] @ '') VALUES'' @ [LF]),
        [''An error occurred: '' @ [sq] @ ''NoneType'' @ [sq] @ '' object has no attribute ''
           @ [sq] @ ''replace'' @ [sq]])"
proof -
  have h1: "(Map.empty(''in.csv'' \<mapsto> ''id;name'' @ [LF] @ ''1'' @ [LF])) ''in.csv'' =
      Some (''id;name'' @ [LF] @ ''1'' @ [LF])"
    by simp
  have h2: "''in.csv'' \<noteq> ''out.sql''" by simp
  have h4: "[''id'', ''name''] \<noteq> []" by simp
  have h5: "[''1''] \<in> set [[''1'']]" by simp
  have h6: "[''1''] \<noteq> []" by simp
  have h7: "''name'' \<in> set (drop (length [''1'']) [''id'', ''name''])" by simp
  have h8: "''name'' \<noteq> ''status''" by simp
  have h9: "''name'' \<noteq> ''rate''" by simp
  from C7_short_row [where files = "Map.empty(''in.csv'' \<mapsto> ''id;name'' @ [LF] @ ''1'' @ [LF])"
      and csv_file_path = "''in.csv''" and table_name = "''t''",
      OF h1 h2 example_short_name_reader h4 h5 h6 h7 h8 h9]
  show ?thesis by (rule conjunct1)
qed

section \<open>Determinism\<close>

lemma csv_to_sql_insert_output:
  assumes "files csv_file_path = Some text" and "csv_file_path \<noteq> output_file_path"
  shows "csv_to_sql_insert files csv_file_path output_file_path table_name =
     (files(output_file_path \<mapsto> fst (with_body text table_name)),
      snd (csv_to_sql_insert files csv_file_path output_file_path table_name))"
  using assms
  by (cases "with_body text table_name")
    (auto simp add: csv_to_sql_insert_def split: sum.splits)

lemma csv_to_sql_insert_messages:
  assumes "files csv_file_path = Some text" and "csv_file_path \<noteq> output_file_path"
    and "files' csv_file_path = Some text"
  shows "snd (csv_to_sql_insert files' csv_file_path output_file_path table_name) =
     snd (csv_to_sql_insert files csv_file_path output_file_path table_name)"
  using assms
  by (cases "with_body text table_name")
    (auto simp add: csv_to_sql_insert_def split: sum.splits)

lemma csv_to_sql_insert_idem:
  "csv_to_sql_insert (fst (csv_to_sql_insert files csv_file_path output_file_path table_name))
      csv_file_path output_file_path table_name =
   csv_to_sql_insert files csv_file_path output_file_path table_name"
proof (cases "files csv_file_path")
  case None
  then show ?thesis by (simp add: csv_to_sql_insert_def)
next
  case (Some content)
  show ?thesis
  proof (cases "csv_file_path = output_file_path")
    case True
    with Some show ?thesis by (simp add: csv_to_sql_insert_same_path)
  next
    case False
    let ?files' = "fst (csv_to_sql_insert files csv_file_path output_file_path table_name)"
    from csv_to_sql_insert_output [where files = files and table_name = table_name, OF Some False]
    have files': "?files' = files(output_file_path \<mapsto> fst (with_body content table_name))"
      by (metis fst_conv)
    with Some False have in': "?files' csv_file_path = Some content" by simp
    from csv_to_sql_insert_output [where files = ?files' and table_name = table_name, OF in' False]
      csv_to_sql_insert_messages [where files = files and files' = ?files', OF Some False in']
    have "csv_to_sql_insert ?files' csv_file_path output_file_path table_name =
        (?files'(output_file_path \<mapsto> fst (with_body content table_name)),
         snd (csv_to_sql_insert files csv_file_path output_file_path table_name))"
      by simp
    also have "?files'(output_file_path \<mapsto> fst (with_body content table_name)) = ?files'"
      by (simp only: files' fun_upd_upd)
    finally show ?thesis by simp
  qed
qed

text \<open>
  C9. The converter is deterministic. Run a second time on the file system the first run
  left, with the same arguments, it leaves the same file system and prints the same lines; and
  two runs, in any file systems and under any paths, on input files of the same content and
  with the same table name, the output path differing from the input path in each, leave
  byte-identical content in their output files.
\<close>

theorem C9_deterministic:
  "csv_to_sql_insert (fst (csv_to_sql_insert files csv_file_path output_file_path table_name))
      csv_file_path output_file_path table_name =
     csv_to_sql_insert files csv_file_path output_file_path table_name
   \<and> (files1 csv1 = Some text \<and> files2 csv2 = Some text \<and> csv1 \<noteq> out1 \<and> csv2 \<noteq> out2 \<longrightarrow>
        fst (csv_to_sql_insert files1 csv1 out1 table_name) out1 =
        fst (csv_to_sql_insert files2 csv2 out2 table_name) out2)"
proof (intro conjI impI)
  show "csv_to_sql_insert (fst (csv_to_sql_insert files csv_file_path output_file_path table_name))
      csv_file_path output_file_path table_name =
     csv_to_sql_insert files csv_file_path output_file_path table_name"
    by (rule csv_to_sql_insert_idem)
next
  assume a: "files1 csv1 = Some text \<and> files2 csv2 = Some text \<and> csv1 \<noteq> out1 \<and> csv2 \<noteq> out2"
  then have "fst (csv_to_sql_insert files1 csv1 out1 table_name) =
      files1(out1 \<mapsto> fst (with_body text table_name))"
    using csv_to_sql_insert_output [where files = files1 and csv_file_path = csv1]
    by (metis fst_conv)
  moreover from a have "fst (csv_to_sql_insert files2 csv2 out2 table_name) =
      files2(out2 \<mapsto> fst (with_body text table_name))"
    using csv_to_sql_insert_output [where files = files2 and csv_file_path = csv2]
    by (metis fst_conv)
  ultimately show "fst (csv_to_sql_insert files1 csv1 out1 table_name) out1 =
        fst (csv_to_sql_insert files2 csv2 out2 table_name) out2"
    by simp
qed

theorem C9_deterministic_witness:
  "fst (csv_to_sql_insert (Map.empty(''a.csv'' \<mapsto> ''id;status'' @ [LF] @ ''1;2'' @ [LF]))
        ''a.csv'' ''a.sql'' ''t'') ''a.sql'' =
   fst (csv_to_sql_insert (Map.empty(''b.csv'' \<mapsto> ''id;status'' @ [LF] @ ''1;2'' @ [LF],
          ''b.sql'' \<mapsto> ''old'')) ''b.csv'' ''b.sql'' ''t'') ''b.sql''"
proof -
  have "(Map.empty(''a.csv'' \<mapsto> ''id;status'' @ [LF] @ ''1;2'' @ [LF])) ''a.csv'' =
        Some (''id;status'' @ [LF] @ ''1;2'' @ [LF])
      \<and> (Map.empty(''b.csv'' \<mapsto> ''id;status'' @ [LF] @ ''1;2'' @ [LF], ''b.sql'' \<mapsto> ''old''))
          ''b.csv'' = Some (''id;status'' @ [LF] @ ''1;2'' @ [LF])
      \<and> ''a.csv'' \<noteq> ''a.sql'' \<and> ''b.csv'' \<noteq> ''b.sql''"
    by simp
  with C9_deterministic [where ?files1.0 = "Map.empty(''a.csv'' \<mapsto> ''id;status'' @ [LF] @ ''1;2'' @ [LF])"
      and ?csv1.0 = "''a.csv''" and ?out1.0 = "''a.sql''"
      and ?files2.0 = "Map.empty(''b.csv'' \<mapsto> ''id;status'' @ [LF] @ ''1;2'' @ [LF], ''b.sql'' \<mapsto> ''old'')"
      and ?csv2.0 = "''b.csv''" and ?out2.0 = "''b.sql''"
      and ?text = "''id;status'' @ [LF] @ ''1;2'' @ [LF]" and table_name = "''t''"]
  show ?thesis by blast
qed

section \<open>Partial output\<close>




end
